theory Spec2Isabelle
  imports Complex_Main
begin

section \<open>Python values shared by the notebooks\<close>

text \<open>
  The notebooks compute with Python numbers. An \<open>int\<close> is unbounded; a \<open>float\<close> is
  idealised as a real number (rounding and overflow of IEEE doubles are not part of this
  development). The two are kept apart because the code returns the integer \<open>1\<close> on one
  path and \<open>float(...)\<close> on another.
\<close>

datatype pynum = PyInt int | PyFloat real

fun num_val :: "pynum \<Rightarrow> real" where
  "num_val (PyInt i) = real_of_int i"
| "num_val (PyFloat r) = r"

datatype py_error = ZeroDivisionError | KeyError string | ValueError | TypeError

text \<open>Values held in dictionaries and series: a string, a number or \<open>None\<close>.\<close>

datatype pyval = PyStr string | PyNumber pynum | PyNone


section \<open>The toy objective of the sequential-learning tutorial\<close>

text \<open>
  \<^verbatim>\<open>
  def toy_func(inputs):
      return np.sum(np.square(inputs))
  \<close>
  \<open>np.square\<close> squares element-wise, \<open>np.sum\<close> adds all elements up from \<open>0\<close>.
\<close>

definition np_square :: "real list \<Rightarrow> real list" where
  "np_square xs = map (\<lambda>x. x * x) xs"

definition np_sum :: "real list \<Rightarrow> real" where
  "np_sum xs = foldl (+) 0 xs"

definition toy_func :: "real list \<Rightarrow> real" where
  "toy_func inputs = np_sum (np_square inputs)"

section \<open>Working with PIFs: the chemical formula parser\<close>

text \<open>
  \<^verbatim>\<open>
  def get_stoich(AlCu_formula):
      m = re.match(r"Al([0-9]*)Cu([0-9]*)", AlCu_formula)
      if m is None:
          return (0, 0)
      n_Al = float(m.group(1)) if len(m.group(1)) > 0 else 1
      n_Cu = float(m.group(2)) if len(m.group(2)) > 0 else 1
      return (n_Al, n_Cu)
  \<close>
  \<open>re.match\<close> anchors the pattern at the start of the string. The pattern is a sequence of
  literal characters and capture groups \<open>([0-9]*)\<close>; a group is greedy and backtracks: it
  first takes the longest run of digits and gives digits back one at a time while the rest
  of the pattern fails. \<open>re_match\<close> returns the captured groups of the first successful
  attempt, and \<open>None\<close> when every attempt fails.
\<close>

datatype re_item = Lit char | DigitsGroup

definition is_digit :: "char \<Rightarrow> bool" where
  "is_digit c = (48 \<le> (of_char c :: nat) \<and> (of_char c :: nat) \<le> 57)"

fun first_some :: "'a option list \<Rightarrow> 'a option" where
  "first_some [] = None"
| "first_some (Some x # _) = Some x"
| "first_some (None # rest) = first_some rest"

fun re_match :: "re_item list \<Rightarrow> string \<Rightarrow> string list option" where
  "re_match [] s = Some []"
| "re_match (Lit c # p) s =
     (case s of [] \<Rightarrow> None | x # xs \<Rightarrow> if x = c then re_match p xs else None)"
| "re_match (DigitsGroup # p) s =
     first_some (map (\<lambda>k. map_option (\<lambda>gs. take k s # gs) (re_match p (drop k s)))
                     (rev [0..<Suc (length (takeWhile is_digit s))]))"

definition stoich_pattern :: "re_item list" where
  "stoich_pattern = [Lit CHR ''A'', Lit CHR ''l'', DigitsGroup, Lit CHR ''C'', Lit CHR ''u'', DigitsGroup]"

text \<open>\<open>m.group(i)\<close> for \<open>i \<ge> 1\<close>; the pattern above always captures two groups.\<close>

definition group :: "string list \<Rightarrow> nat \<Rightarrow> string" where
  "group m i = m ! (i - 1)"

text \<open>
  \<open>float(ds)\<close> on a non-empty string of ASCII digits: its decimal value (exact here; a
  double rounds values of more than 53 bits).
\<close>

definition digit_val :: "char \<Rightarrow> nat" where
  "digit_val c = of_char c - 48"

definition py_float :: "string \<Rightarrow> real" where
  "py_float ds = real (foldl (\<lambda>a c. 10 * a + digit_val c) 0 ds)"

definition get_stoich :: "string \<Rightarrow> pynum \<times> pynum" where
  "get_stoich AlCu_formula =
     (case re_match stoich_pattern AlCu_formula of
        None \<Rightarrow> (PyInt 0, PyInt 0)
      | Some m \<Rightarrow>
          (let n_Al = (if length (group m 1) > 0 then PyFloat (py_float (group m 1)) else PyInt 1);
               n_Cu = (if length (group m 2) > 0 then PyFloat (py_float (group m 2)) else PyInt 1)
           in (n_Al, n_Cu)))"



section \<open>Working with PIFs: the phase-stability loop\<close>

text \<open>
  Python arithmetic on \<open>pynum\<close>: two ints give an int, any float operand gives a float;
  \<open>/\<close> is true division and raises \<open>ZeroDivisionError\<close> on a zero divisor; \<open>==\<close> compares
  numerically across int and float.
  \<^verbatim>\<open>
  def enthalpy_of_formation(energy, n_Al, n_Cu, energy_Al, energy_Cu):
      return (energy - n_Al * energy_Al - n_Cu * energy_Cu) / (n_Al + n_Cu)

  points = [(0.0, 0.0), (1.0, 0.0)]
  for pif in AlCu_pifs:
      rv = ReadView(pif)
      energy = rv["Total Energy"].scalars[0].value
      n_Al, n_Cu = get_stoich(rv.chemical_formula)
      if n_Al == 0 and n_Cu == 0: continue
      points.append((
              n_Cu / (n_Cu + n_Al),
              enthalpy_of_formation(energy, n_Al, n_Cu, energy_Al, energy_Cu)
          ))
  \<close>
  A \<open>read_view\<close> holds what the loop reads from a PIF. \<open>skipped\<close> is the test of the
  \<open>continue\<close> line.
\<close>

fun py_add :: "pynum \<Rightarrow> pynum \<Rightarrow> pynum" where
  "py_add (PyInt a) (PyInt b) = PyInt (a + b)"
| "py_add a b = PyFloat (num_val a + num_val b)"

fun py_sub :: "pynum \<Rightarrow> pynum \<Rightarrow> pynum" where
  "py_sub (PyInt a) (PyInt b) = PyInt (a - b)"
| "py_sub a b = PyFloat (num_val a - num_val b)"

fun py_mul :: "pynum \<Rightarrow> pynum \<Rightarrow> pynum" where
  "py_mul (PyInt a) (PyInt b) = PyInt (a * b)"
| "py_mul a b = PyFloat (num_val a * num_val b)"

definition py_truediv :: "pynum \<Rightarrow> pynum \<Rightarrow> py_error + pynum" where
  "py_truediv a b =
     (if num_val b = 0 then Inl ZeroDivisionError else Inr (PyFloat (num_val a / num_val b)))"

definition py_eq :: "pynum \<Rightarrow> pynum \<Rightarrow> bool" where
  "py_eq a b \<longleftrightarrow> num_val a = num_val b"

definition enthalpy_of_formation ::
  "pynum \<Rightarrow> pynum \<Rightarrow> pynum \<Rightarrow> pynum \<Rightarrow> pynum \<Rightarrow> py_error + pynum" where
  "enthalpy_of_formation energy n_Al n_Cu energy_Al energy_Cu =
     py_truediv (py_sub (py_sub energy (py_mul n_Al energy_Al)) (py_mul n_Cu energy_Cu))
                (py_add n_Al n_Cu)"

record read_view =
  total_energy :: pynum
  chemical_formula :: string

definition skipped :: "read_view \<Rightarrow> bool" where
  "skipped rv \<longleftrightarrow>
     py_eq (fst (get_stoich (chemical_formula rv))) (PyInt 0) \<and>
     py_eq (snd (get_stoich (chemical_formula rv))) (PyInt 0)"

fun phase_points ::
  "pynum \<Rightarrow> pynum \<Rightarrow> read_view list \<Rightarrow> (pynum \<times> pynum) list \<Rightarrow> py_error + (pynum \<times> pynum) list" where
  "phase_points energy_Al energy_Cu [] points = Inr points"
| "phase_points energy_Al energy_Cu (rv # pifs) points =
     (let energy = total_energy rv;
          (n_Al, n_Cu) = get_stoich (chemical_formula rv)
      in if py_eq n_Al (PyInt 0) \<and> py_eq n_Cu (PyInt 0)
         then phase_points energy_Al energy_Cu pifs points
         else (case py_truediv n_Cu (py_add n_Cu n_Al) of
                 Inl e \<Rightarrow> Inl e
               | Inr x \<Rightarrow>
                  (case enthalpy_of_formation energy n_Al n_Cu energy_Al energy_Cu of
                     Inl e \<Rightarrow> Inl e
                   | Inr h \<Rightarrow> phase_points energy_Al energy_Cu pifs (points @ [(x, h)]))))"

definition initial_points :: "(pynum \<times> pynum) list" where
  "initial_points = [(PyFloat 0, PyFloat 0), (PyFloat 1, PyFloat 0)]"

definition example_pifs :: "read_view list" where
  "example_pifs =
     [\<lparr>total_energy = PyFloat (-10), chemical_formula = ''Al2Cu3''\<rparr>,
      \<lparr>total_energy = PyFloat (-3), chemical_formula = ''Al0Cu0''\<rparr>,
      \<lparr>total_energy = PyFloat (-4), chemical_formula = ''Cu4''\<rparr>]"

section \<open>Experimental design: writing the CSV of known materials\<close>














section \<open>SMA demo: building the formula column\<close>

text \<open>
  \<^verbatim>\<open>
  data = pd.read_csv("sma_demo/Xue_data.csv", delimiter=',')
  num_points = data.shape[0]
  formula = pd.Series(num_points, index=data.index)
  for i in range(num_points):
      string = "Ti0.5" # All alloys in the dataset are 50% titanium
      elements = ["Ni", "Cu", "Fe", "Pd"]
      for el in elements:
          if data[el][i] > 0:
              string += el + str(data[el][i]/100.)
      formula[i] = string
  \<close>
  The data frame has \<open>num_points\<close> rows and named numeric columns; \<open>data[el]\<close> raises
  \<open>KeyError\<close> when there is no such column, and a column is read at row indices below
  \<open>num_points\<close> only. Python's \<open>str\<close> of a float is a parameter \<open>str\<close> of the model. The
  series \<open>formula\<close> starts with \<open>num_points\<close> in every entry and is overwritten entry by
  entry.
\<close>

record dataframe =
  num_points :: nat
  columns :: "string \<rightharpoonup> (nat \<Rightarrow> real)"

definition elements :: "string list" where
  "elements = [''Ni'', ''Cu'', ''Fe'', ''Pd'']"

fun element_loop ::
  "(real \<Rightarrow> string) \<Rightarrow> dataframe \<Rightarrow> nat \<Rightarrow> string list \<Rightarrow> string \<Rightarrow> py_error + string" where
  "element_loop str data i [] string = Inr string"
| "element_loop str data i (el # els) string =
     (case columns data el of
        None \<Rightarrow> Inl (KeyError el)
      | Some column \<Rightarrow>
          if column i > 0
          then element_loop str data i els (string @ el @ str (column i / 100))
          else element_loop str data i els string)"

fun row_loop ::
  "(real \<Rightarrow> string) \<Rightarrow> dataframe \<Rightarrow> nat list \<Rightarrow> pyval list \<Rightarrow> py_error + pyval list" where
  "row_loop str data [] formula = Inr formula"
| "row_loop str data (i # rest) formula =
     (case element_loop str data i elements ''Ti0.5'' of
        Inl e \<Rightarrow> Inl e
      | Inr string \<Rightarrow> row_loop str data rest (formula[i := PyStr string]))"

definition preprocess_formulas :: "(real \<Rightarrow> string) \<Rightarrow> dataframe \<Rightarrow> py_error + pyval list" where
  "preprocess_formulas str data =
     row_loop str data [0..<num_points data]
       (replicate (num_points data) (PyNumber (PyInt (int (num_points data)))))"

text \<open>
  The claim's words: the formula of row \<open>i\<close> is \<open>Ti0.5\<close> and then, in the order
  Ni, Cu, Fe, Pd, the symbol and the value divided by 100 of each element whose value in
  that row is greater than 0.
\<close>

definition cell :: "dataframe \<Rightarrow> string \<Rightarrow> nat \<Rightarrow> real" where
  "cell data el i = (case columns data el of Some column \<Rightarrow> column i | None \<Rightarrow> 0)"

definition formula_of_row :: "(real \<Rightarrow> string) \<Rightarrow> dataframe \<Rightarrow> nat \<Rightarrow> string" where
  "formula_of_row str data i =
     ''Ti0.5'' @ concat (map (\<lambda>el. el @ str (cell data el i / 100))
                           (filter (\<lambda>el. cell data el i > 0) [''Ni'', ''Cu'', ''Fe'', ''Pd'']))"

text \<open>
  A three-row table for evaluation, and a rendering of floats that agrees with Python's
  \<open>str\<close> on the quotients this table produces.
\<close>

definition column_of :: "real list \<Rightarrow> nat \<Rightarrow> real" where
  "column_of vs i = (if i < length vs then vs ! i else 0)"

definition xue_data :: dataframe where
  "xue_data = \<lparr>num_points = 3,
     columns = [''Ni'' \<mapsto> column_of [50, 46, 0], ''Cu'' \<mapsto> column_of [0, 4, 0],
                ''Fe'' \<mapsto> column_of [0, 0, 0], ''Pd'' \<mapsto> column_of [0, 2, -1]]\<rparr>"

definition demo_str :: "real \<Rightarrow> string" where
  "demo_str r = (if r = 1/2 then ''0.5'' else if r = 46/100 then ''0.46''
                 else if r = 4/100 then ''0.04'' else if r = 2/100 then ''0.02'' else ''?'')"

section \<open>The sequential-learning driver\<close>

text \<open>
  The tutorial calls
  \<^verbatim>\<open>
  best_sl_pred_vals, best_sl_measured_vals = run_sequential_learning(
      client=client, view_id=str(view_id), dataset_id=str(dataset_id),
      num_candidates_per_iter=10, design_effort=10, wait_time=10, num_sl_iterations=5,
      input_properties=["Property x1", "Property x2"], target=["Property y", "Min"],
      print_output=True, true_function=toy_func, score_type="MLI")
  \<close>
  The driver itself lives in \<open>sequential_learning_wrappers.py\<close>, which is not among the
  sources; the definitions of this section follow the specification and the tutorial's
  description of the loop.
\<close>

text \<open>
  Modelled from the spec: the jobs the driver submits to the hosted service ("submit a
  design job", "retrain"), numbered by iteration, and the events of a run; the code that
  names them is in \<open>sequential_learning_wrappers.py\<close>, absent from the sources. The hosted
  service is the environment: \<open>ready j k\<close> is its answer to status poll number \<open>k\<close> of job
  \<open>j\<close>, and \<open>design\<close> proposes candidates (inputs with a predicted value) from the dataset.
\<close>

datatype job = DesignJob nat | RetrainJob nat

datatype event =
    SubmitDesign nat
  | Poll job bool
  | Sleep nat
  | ExtractCandidates nat
  | Evaluate nat
  | AppendToDataset nat
  | Retrain nat

type_synonym sl_dataset = "(real list \<times> real) list"

record service =
  ready :: "job \<Rightarrow> nat \<Rightarrow> bool"
  design :: "sl_dataset \<Rightarrow> nat \<Rightarrow> (real list \<times> real) list"

text \<open>
  Modelled from the spec: the arguments of \<open>run_sequential_learning\<close> that the loop depends
  on, as the tutorial's call names them (the driver's signature is in the absent
  \<open>sequential_learning_wrappers.py\<close>); \<open>best_of\<close> picks the best value of an iteration
  according to \<open>target\<close>. The state holds the dataset, the two result lists and the trace
  of what the driver has done.
\<close>

record sl_args =
  num_candidates_per_iter :: nat
  wait_time :: nat
  num_sl_iterations :: nat
  true_function :: "real list \<Rightarrow> real"
  best_of :: "real list \<Rightarrow> real"

record sl_state =
  dataset :: sl_dataset
  best_sl_pred_vals :: "real list"
  best_sl_measured_vals :: "real list"
  trace :: "event list"

text \<open>
  Modelled from the spec: the polling loop of \<open>sequential_learning_wrappers.py\<close>, absent
  from the sources, "poll with fixed sleep intervals until status is ready" and "sleep and
  retry until status flag flips". \<open>status k\<close> is the answer to poll number \<open>k\<close>. The loop
  has no bound: when the status never becomes ready it does not return, which is the value
  \<open>None\<close>.
\<close>

partial_function (option) poll_until_ready ::
  "(nat \<Rightarrow> bool) \<Rightarrow> job \<Rightarrow> nat \<Rightarrow> nat \<Rightarrow> event list option" where
  "poll_until_ready status j w k =
     (if status k then Some [Poll j True]
      else Option.bind (poll_until_ready status j w (Suc k))
             (\<lambda>t. Some (Poll j False # Sleep w # t)))"

text \<open>
  Modelled from the spec: one iteration of \<open>run_sequential_learning\<close> in
  \<open>sequential_learning_wrappers.py\<close>, absent from the sources, "submit a design job, poll
  with fixed sleep intervals until status is ready, extract top candidates, evaluate them
  with a local toy function, append results to a dataset, retrain"; the tutorial adds that
  predicted and measured results are recorded and that retraining is polled too.
\<close>

definition sl_iteration :: "service \<Rightarrow> sl_args \<Rightarrow> nat \<Rightarrow> sl_state \<Rightarrow> sl_state option" where
  "sl_iteration svc args i s =
     Option.bind (poll_until_ready (ready svc (DesignJob i)) (DesignJob i) (wait_time args) 0)
       (\<lambda>t1.
          let candidates = design svc (dataset s) (num_candidates_per_iter args);
              predicted = map snd candidates;
              measured = map (\<lambda>c. true_function args (fst c)) candidates;
              dataset' = dataset s @ zip (map fst candidates) measured
          in Option.bind
               (poll_until_ready (ready svc (RetrainJob i)) (RetrainJob i) (wait_time args) 0)
               (\<lambda>t2. Some \<lparr>dataset = dataset',
                    best_sl_pred_vals = best_sl_pred_vals s @ [best_of args predicted],
                    best_sl_measured_vals = best_sl_measured_vals s @ [best_of args measured],
                    trace = trace s @ [SubmitDesign i] @ t1
                      @ [ExtractCandidates i, Evaluate i, AppendToDataset i, Retrain i] @ t2\<rparr>))"

text \<open>
  Modelled from the spec: the loop of \<open>run_sequential_learning\<close> in
  \<open>sequential_learning_wrappers.py\<close>, absent from the sources, "repeat for a fixed iteration
  count"; it returns the best predicted and the best measured values.
\<close>

fun sl_loop :: "service \<Rightarrow> sl_args \<Rightarrow> nat list \<Rightarrow> sl_state \<Rightarrow> sl_state option" where
  "sl_loop svc args [] s = Some s"
| "sl_loop svc args (i # rest) s = Option.bind (sl_iteration svc args i s) (sl_loop svc args rest)"

text \<open>
  Modelled from the spec: the body of \<open>run_sequential_learning\<close> (absent
  \<open>sequential_learning_wrappers.py\<close>) with the final state kept, so that the trace can be
  examined: iterations \<open>0\<close> to \<open>num_sl_iterations - 1\<close> from empty result lists.
\<close>

definition sl_run :: "service \<Rightarrow> sl_args \<Rightarrow> sl_dataset \<Rightarrow> sl_state option" where
  "sl_run svc args initial =
     sl_loop svc args [0..<num_sl_iterations args]
       \<lparr>dataset = initial, best_sl_pred_vals = [], best_sl_measured_vals = [], trace = []\<rparr>"

text \<open>
  Modelled from the spec: \<open>run_sequential_learning\<close> (absent
  \<open>sequential_learning_wrappers.py\<close>) returns the pair the tutorial unpacks,
  \<open>best_sl_pred_vals, best_sl_measured_vals\<close>; \<open>None\<close> when it does not return.
\<close>

definition run_sequential_learning ::
  "service \<Rightarrow> sl_args \<Rightarrow> sl_dataset \<Rightarrow> (real list \<times> real list) option" where
  "run_sequential_learning svc args initial =
     map_option (\<lambda>s. (best_sl_pred_vals s, best_sl_measured_vals s)) (sl_run svc args initial)"

text \<open>
  The events of one poll: \<open>m\<close> polls answered not ready, each followed by a sleep of the
  wait time, and the poll answered ready. \<open>first_ready status m\<close>: poll \<open>m\<close> is the first
  one answered ready.
\<close>

definition poll_block :: "job \<Rightarrow> nat \<Rightarrow> nat \<Rightarrow> event list" where
  "poll_block j w m = concat (replicate m [Poll j False, Sleep w]) @ [Poll j True]"

definition iteration_events :: "nat \<Rightarrow> nat \<Rightarrow> nat \<Rightarrow> nat \<Rightarrow> event list" where
  "iteration_events w i m1 m2 =
     [SubmitDesign i] @ poll_block (DesignJob i) w m1
     @ [ExtractCandidates i, Evaluate i, AppendToDataset i, Retrain i]
     @ poll_block (RetrainJob i) w m2"

definition first_ready :: "(nat \<Rightarrow> bool) \<Rightarrow> nat \<Rightarrow> bool" where
  "first_ready status m \<longleftrightarrow> status m \<and> (\<forall>k<m. \<not> status k)"

definition is_submit :: "event \<Rightarrow> bool" where
  "is_submit e = (case e of SubmitDesign i \<Rightarrow> True | _ \<Rightarrow> False)"

text \<open>
  Two services for evaluation: one whose jobs never become ready, one whose jobs are
  ready at their second poll; and arguments with the tutorial's toy objective and the
  minimum as the best value.
\<close>

definition stuck_service :: service where
  "stuck_service = \<lparr>ready = (\<lambda>j k. False), design = (\<lambda>ds n. replicate n ([0, 0], 0))\<rparr>"

definition slow_service :: service where
  "slow_service = \<lparr>ready = (\<lambda>j k. 1 \<le> k), design = (\<lambda>ds n. replicate n ([1, 2], 4))\<rparr>"

definition demo_args :: "nat \<Rightarrow> sl_args" where
  "demo_args n = \<lparr>num_candidates_per_iter = 1, wait_time = 10, num_sl_iterations = n,
     true_function = toy_func,
     best_of = (\<lambda>vs. case vs of [] \<Rightarrow> 0 | v # rest \<Rightarrow> foldl min v rest)\<rparr>"

text \<open>
  The state after an iteration whose design job was first ready at poll \<open>m1\<close> and whose
  retrain job at poll \<open>m2\<close>, and the poll at which a job is first ready.
\<close>

definition after_iteration :: "service \<Rightarrow> sl_args \<Rightarrow> nat \<Rightarrow> sl_state \<Rightarrow> nat \<Rightarrow> nat \<Rightarrow> sl_state" where
  "after_iteration svc args i s m1 m2 =
     (let candidates = design svc (dataset s) (num_candidates_per_iter args);
          measured = map (\<lambda>c. true_function args (fst c)) candidates
      in \<lparr>dataset = dataset s @ zip (map fst candidates) measured,
          best_sl_pred_vals = best_sl_pred_vals s @ [best_of args (map snd candidates)],
          best_sl_measured_vals = best_sl_measured_vals s @ [best_of args measured],
          trace = trace s @ iteration_events (wait_time args) i m1 m2\<rparr>)"

definition ready_at :: "service \<Rightarrow> job \<Rightarrow> nat" where
  "ready_at svc j = (LEAST k. ready svc j k)"

section \<open>The notebooks as linear scripts\<close>

















section \<open>Properties of the toy objective\<close>







section \<open>Properties of the formula parser\<close>














section \<open>Properties of the phase-stability loop\<close>

lemma num_val_py_add: "num_val (py_add a b) = num_val a + num_val b"
  by (cases a; cases b) simp_all

lemma get_stoich_nonneg:
  "0 \<le> num_val (fst (get_stoich s)) \<and> 0 \<le> num_val (snd (get_stoich s))"
  by (simp add: get_stoich_def py_float_def Let_def split: option.split)

lemma divisor_positive:
  assumes "\<not> (py_eq (fst (get_stoich s)) (PyInt 0) \<and> py_eq (snd (get_stoich s)) (PyInt 0))"
  shows "0 < num_val (py_add (fst (get_stoich s)) (snd (get_stoich s)))"
    and "0 < num_val (py_add (snd (get_stoich s)) (fst (get_stoich s)))"
  using assms get_stoich_nonneg [of s]
  by (auto simp: num_val_py_add py_eq_def)

lemma enthalpy_defined:
  assumes "\<not> skipped rv"
  shows "\<exists>h. enthalpy_of_formation e (fst (get_stoich (chemical_formula rv)))
            (snd (get_stoich (chemical_formula rv))) eAl eCu = Inr h"
  using divisor_positive(1) [of "chemical_formula rv"] assms
  by (simp add: enthalpy_of_formation_def py_truediv_def skipped_def)

lemma phase_points_total:
  "\<exists>pts. phase_points eAl eCu pifs points = Inr (points @ pts)
      \<and> length pts = length (filter (\<lambda>rv. \<not> skipped rv) pifs)"
proof (induction pifs arbitrary: points)
  case Nil
  show ?case by simp
next
  case (Cons rv pifs)
  obtain a b where ab: "get_stoich (chemical_formula rv) = (a, b)"
    by (cases "get_stoich (chemical_formula rv)")
  show ?case
  proof (cases "skipped rv")
    case True
    then show ?thesis
      using Cons.IH [of points] ab by (simp add: skipped_def)
  next
    case False
    then have nz: "\<not> (py_eq a (PyInt 0) \<and> py_eq b (PyInt 0))"
      using ab by (simp add: skipped_def)
    have "0 < num_val (py_add b a)"
      using divisor_positive(2) [of "chemical_formula rv"] nz ab by simp
    then obtain x where x: "py_truediv b (py_add b a) = Inr x"
      by (simp add: py_truediv_def)
    obtain h where h: "enthalpy_of_formation (total_energy rv) a b eAl eCu = Inr h"
      using enthalpy_defined [OF False, of "total_energy rv" eAl eCu] ab by auto
    obtain pts where "phase_points eAl eCu pifs (points @ [(x, h)]) = Inr ((points @ [(x, h)]) @ pts)"
      and "length pts = length (filter (\<lambda>rv. \<not> skipped rv) pifs)"
      using Cons.IH [of "points @ [(x, h)]"] by blast
    then show ?thesis
      using ab nz x h False by auto
  qed
qed

text \<open>
  Claim C8. \<open>get_stoich\<close> returns two non-negative numbers, whose sum is \<open>0\<close> only when
  both are \<open>0\<close>; for every PIF the loop does not skip, the divisor \<open>n_Al + n_Cu\<close> is
  positive and \<open>enthalpy_of_formation\<close> returns a value; the loop never raises and appends
  one point per PIF that is not skipped.
\<close>

theorem enthalpy_divisor_never_zero:
  "(0 \<le> num_val (fst (get_stoich s)) \<and> 0 \<le> num_val (snd (get_stoich s))) \<and>
   (num_val (fst (get_stoich s)) + num_val (snd (get_stoich s)) = 0 \<longrightarrow>
      num_val (fst (get_stoich s)) = 0 \<and> num_val (snd (get_stoich s)) = 0) \<and>
   (\<forall>rv \<in> set pifs. \<not> skipped rv \<longrightarrow>
      0 < num_val (py_add (fst (get_stoich (chemical_formula rv))) (snd (get_stoich (chemical_formula rv))))
      \<and> (\<exists>h. enthalpy_of_formation (total_energy rv) (fst (get_stoich (chemical_formula rv)))
            (snd (get_stoich (chemical_formula rv))) eAl eCu = Inr h)) \<and>
   (\<exists>pts. phase_points eAl eCu pifs points = Inr (points @ pts)
      \<and> length pts = length (filter (\<lambda>rv. \<not> skipped rv) pifs))"
proof (intro conjI ballI impI)
  show "0 \<le> num_val (fst (get_stoich s))" "0 \<le> num_val (snd (get_stoich s))"
    using get_stoich_nonneg [of s] by simp_all
  assume "num_val (fst (get_stoich s)) + num_val (snd (get_stoich s)) = 0"
  then show "num_val (fst (get_stoich s)) = 0" "num_val (snd (get_stoich s)) = 0"
    using get_stoich_nonneg [of s] by linarith+
next
  fix rv assume "rv \<in> set pifs" and ns: "\<not> skipped rv"
  show "0 < num_val (py_add (fst (get_stoich (chemical_formula rv))) (snd (get_stoich (chemical_formula rv))))"
    using divisor_positive(1) [of "chemical_formula rv"] ns by (simp add: skipped_def)
  show "\<exists>h. enthalpy_of_formation (total_energy rv) (fst (get_stoich (chemical_formula rv)))
            (snd (get_stoich (chemical_formula rv))) eAl eCu = Inr h"
    by (rule enthalpy_defined [OF ns])
next
  show "\<exists>pts. phase_points eAl eCu pifs points = Inr (points @ pts)
      \<and> length pts = length (filter (\<lambda>rv. \<not> skipped rv) pifs)"
    by (rule phase_points_total)
qed

theorem enthalpy_divisor_never_zero_witness:
  "0 < num_val (py_add (fst (get_stoich ''Al2Cu3'')) (snd (get_stoich ''Al2Cu3''))) \<and>
   map skipped example_pifs = [False, True, True] \<and>
   (\<exists>pts. phase_points (PyFloat (-1)) (PyFloat (-2)) example_pifs initial_points = Inr (initial_points @ pts)
      \<and> length pts = 1)"
proof -
  have st: "get_stoich ''Al2Cu3'' = (PyFloat 2, PyFloat 3)"
    "get_stoich ''Al0Cu0'' = (PyFloat 0, PyFloat 0)"
    "get_stoich ''Cu4'' = (PyInt 0, PyInt 0)"
    by (simp_all add: get_stoich_def stoich_pattern_def group_def py_float_def digit_val_def is_digit_def)
  have sk: "map skipped example_pifs = [False, True, True]"
    by (simp add: example_pifs_def skipped_def st py_eq_def)
  then have n: "length (filter (\<lambda>rv. \<not> skipped rv) example_pifs) = 1"
    by (simp add: example_pifs_def)
  have mem: "\<lparr>total_energy = PyFloat (-10), chemical_formula = ''Al2Cu3''\<rparr> \<in> set example_pifs"
    by (simp add: example_pifs_def)
  have ns: "\<not> skipped \<lparr>total_energy = PyFloat (-10), chemical_formula = ''Al2Cu3''\<rparr>"
    using sk by (simp add: example_pifs_def)
  note T = enthalpy_divisor_never_zero
    [of "''Al2Cu3''" example_pifs "PyFloat (-1)" "PyFloat (-2)" initial_points]
  from T mem ns
  have "0 < num_val (py_add (fst (get_stoich ''Al2Cu3'')) (snd (get_stoich ''Al2Cu3'')))"
    by fastforce
  moreover from T n
  have "\<exists>pts. phase_points (PyFloat (-1)) (PyFloat (-2)) example_pifs initial_points
            = Inr (initial_points @ pts) \<and> length pts = 1"
    by simp
  ultimately show ?thesis
    using sk by simp
qed

section \<open>Properties of write_csv\<close>









section \<open>Properties of the formula column\<close>

lemma element_loop_present:
  assumes "\<forall>el\<in>set els. columns data el \<noteq> None"
  shows "element_loop str data i els string =
           Inr (string @ concat (map (\<lambda>el. el @ str (cell data el i / 100))
                                    (filter (\<lambda>el. cell data el i > 0) els)))"
  using assms by (induction els arbitrary: string) (auto simp: cell_def)

lemma row_loop_present:
  assumes "\<forall>el\<in>set elements. columns data el \<noteq> None" and "length formula = n" and "k \<le> n"
  shows "row_loop str data [k..<n] formula =
           Inr (take k formula @ map (\<lambda>i. PyStr (formula_of_row str data i)) [k..<n])"
  using assms(2,3)
proof (induction "n - k" arbitrary: k formula)
  case 0
  then show ?case by simp
next
  case (Suc d)
  then have kn: "k < n" by simp
  have el: "element_loop str data k elements ''Ti0.5'' = Inr (formula_of_row str data k)"
    using element_loop_present [OF assms(1)] by (simp add: formula_of_row_def elements_def)
  have ih: "row_loop str data [Suc k..<n] (formula[k := PyStr (formula_of_row str data k)]) =
      Inr (take (Suc k) (formula[k := PyStr (formula_of_row str data k)])
           @ map (\<lambda>i. PyStr (formula_of_row str data i)) [Suc k..<n])"
    using Suc by (intro Suc.hyps(1)) simp_all
  have tk: "take (Suc k) (formula[k := PyStr (formula_of_row str data k)])
      = take k formula @ [PyStr (formula_of_row str data k)]"
    using kn Suc.prems(1) by (simp add: take_Suc_conv_app_nth)
  show ?case
    using kn by (simp add: upt_conv_Cons el ih tk)
qed

text \<open>
  Claim C9. When the table has the four columns, the loop gives every row \<open>i\<close> the
  formula that begins with \<open>Ti0.5\<close> and appends, in the order Ni, Cu, Fe, Pd, the symbol and
  the value divided by 100 of exactly the elements whose value in that row is greater than
  0; a row with no positive value gets exactly \<open>Ti0.5\<close>.
\<close>

theorem sma_formula_preprocessing:
  assumes "\<forall>el\<in>set elements. columns data el \<noteq> None"
  shows "\<exists>formula. preprocess_formulas str data = Inr formula
           \<and> length formula = num_points data
           \<and> (\<forall>i<num_points data. formula ! i = PyStr (formula_of_row str data i))
           \<and> (\<forall>i<num_points data. (\<forall>el\<in>set elements. \<not> cell data el i > 0)
                  \<longrightarrow> formula ! i = PyStr ''Ti0.5'')"
proof -
  let ?f = "map (\<lambda>i. PyStr (formula_of_row str data i)) [0..<num_points data]"
  have "preprocess_formulas str data = Inr ?f"
    unfolding preprocess_formulas_def
    using row_loop_present [OF assms, of _ "num_points data" 0 str] by simp
  moreover have "\<forall>i<num_points data. (\<forall>el\<in>set elements. \<not> cell data el i > 0)
                  \<longrightarrow> formula_of_row str data i = ''Ti0.5''"
    by (simp add: formula_of_row_def elements_def)
  ultimately show ?thesis by simp
qed

theorem sma_formula_preprocessing_witness:
  "preprocess_formulas demo_str xue_data =
     Inr [PyStr ''Ti0.5Ni0.5'', PyStr ''Ti0.5Ni0.46Cu0.04Pd0.02'', PyStr ''Ti0.5'']"
proof -
  have h: "\<forall>el\<in>set elements. columns xue_data el \<noteq> None"
    by (simp add: elements_def xue_data_def)
  have n: "num_points xue_data = 3"
    by (simp add: xue_data_def)
  have r: "formula_of_row demo_str xue_data 0 = ''Ti0.5Ni0.5''"
    "formula_of_row demo_str xue_data 1 = ''Ti0.5Ni0.46Cu0.04Pd0.02''"
    "formula_of_row demo_str xue_data 2 = ''Ti0.5''"
    by (simp_all add: formula_of_row_def cell_def xue_data_def demo_str_def column_of_def)
  obtain formula where f: "preprocess_formulas demo_str xue_data = Inr formula"
    and l: "length formula = 3"
    and e: "\<forall>i<3. formula ! i = PyStr (formula_of_row demo_str xue_data i)"
    using sma_formula_preprocessing [OF h, of demo_str] unfolding n by blast
  have "formula = [formula ! 0, formula ! 1, formula ! 2]"
    using l by (auto simp: list_eq_iff_nth_eq less_Suc_eq numeral_3_eq_3 numeral_2_eq_2)
  also have "\<dots> = [PyStr ''Ti0.5Ni0.5'', PyStr ''Ti0.5Ni0.46Cu0.04Pd0.02'', PyStr ''Ti0.5'']"
    using e r by simp
  finally show ?thesis using f by simp
qed

section \<open>Properties of the sequential-learning driver\<close>

lemma poll_ready_now: "status k \<Longrightarrow> poll_until_ready status j w k = Some [Poll j True]"
  by (subst poll_until_ready.simps) simp

lemma poll_not_ready:
  "\<not> status k \<Longrightarrow> poll_until_ready status j w k =
     Option.bind (poll_until_ready status j w (Suc k)) (\<lambda>t. Some (Poll j False # Sleep w # t))"
  by (subst poll_until_ready.simps) simp

lemma poll_ready_after:
  "status (k + m) \<Longrightarrow> (\<forall>i<m. \<not> status (k + i)) \<Longrightarrow>
     poll_until_ready status j w k = Some (poll_block j w m)"
proof (induction m arbitrary: k)
  case 0
  then show ?case by (simp add: poll_ready_now poll_block_def)
next
  case (Suc m)
  have nk: "\<not> status k" using Suc.prems(2) [rule_format, of 0] by simp
  have "poll_until_ready status j w (Suc k) = Some (poll_block j w m)"
  proof (rule Suc.IH)
    show "status (Suc k + m)" using Suc.prems(1) by simp
    show "\<forall>i<m. \<not> status (Suc k + i)"
      using Suc.prems(2) by (metis Suc_less_eq add_Suc_shift)
  qed
  then show ?case using nk by (simp add: poll_not_ready poll_block_def)
qed

lemma poll_Some_D:
  assumes "poll_until_ready status j w k = Some t"
  shows "\<exists>m. status (k + m) \<and> (\<forall>i<m. \<not> status (k + i)) \<and> t = poll_block j w m"
proof (rule poll_until_ready.raw_induct
    [where P = "\<lambda>status j w k t. \<exists>m. status (k + m) \<and> (\<forall>i<m. \<not> status (k + i)) \<and> t = poll_block j w m",
      OF _ assms])
  fix f :: "(nat \<Rightarrow> bool) \<Rightarrow> job \<Rightarrow> nat \<Rightarrow> nat \<Rightarrow> event list option"
  fix status j w k t
  assume IH: "\<And>status j w k t. f status j w k = Some t \<Longrightarrow>
      \<exists>m. status (k + m) \<and> (\<forall>i<m. \<not> status (k + i)) \<and> t = poll_block j w m"
  assume eq: "(if status k then Some [Poll j True]
      else Option.bind (f status j w (Suc k)) (\<lambda>t. Some (Poll j False # Sleep w # t))) = Some t"
  show "\<exists>m. status (k + m) \<and> (\<forall>i<m. \<not> status (k + i)) \<and> t = poll_block j w m"
  proof (cases "status k")
    case True
    with eq have "t = poll_block j w 0" by (simp add: poll_block_def)
    with True show ?thesis by (auto intro!: exI [of _ 0])
  next
    case False
    with eq obtain t' where f: "f status j w (Suc k) = Some t'"
      and t: "t = Poll j False # Sleep w # t'"
      by (auto simp: bind_eq_Some_conv)
    from IH [OF f] obtain m where m: "status (Suc k + m)" "\<forall>i<m. \<not> status (Suc k + i)"
      "t' = poll_block j w m" by blast
    have "\<forall>i<Suc m. \<not> status (k + i)"
    proof (intro allI impI)
      fix i assume "i < Suc m"
      then show "\<not> status (k + i)"
        using False m(2) by (cases i) simp_all
    qed
    moreover have "t = poll_block j w (Suc m)"
      using t m(3) by (simp add: poll_block_def)
    ultimately show ?thesis
      using m(1) by (auto intro!: exI [of _ "Suc m"])
  qed
qed

lemma poll_from_start:
  "poll_until_ready status j w 0 = Some t \<longleftrightarrow> (\<exists>m. first_ready status m \<and> t = poll_block j w m)"
proof
  assume "poll_until_ready status j w 0 = Some t"
  from poll_Some_D [OF this] show "\<exists>m. first_ready status m \<and> t = poll_block j w m"
    by (simp add: first_ready_def)
next
  assume "\<exists>m. first_ready status m \<and> t = poll_block j w m"
  then obtain m where "status (0 + m)" "\<forall>i<m. \<not> status (0 + i)" "t = poll_block j w m"
    by (auto simp: first_ready_def)
  then show "poll_until_ready status j w 0 = Some t"
    using poll_ready_after [of status 0 m j w] by simp
qed

lemma poll_never_ready: "(\<forall>k. \<not> status k) \<Longrightarrow> poll_until_ready status j w 0 = None"
proof (rule ccontr)
  assume n: "\<forall>k. \<not> status k" and "poll_until_ready status j w 0 \<noteq> None"
  then obtain t where "poll_until_ready status j w 0 = Some t" by auto
  then show False using n by (auto simp: poll_from_start first_ready_def)
qed

lemma first_ready_exists: "\<exists>k. status k \<Longrightarrow> \<exists>m. first_ready status m"
  unfolding first_ready_def by (subst (asm) exists_least_iff) blast

lemma first_ready_unique: "first_ready status a \<Longrightarrow> first_ready status b \<Longrightarrow> a = b"
  unfolding first_ready_def by (metis nat_neq_iff)

lemma sl_iteration_Some_iff:
  "sl_iteration svc args i s = Some s' \<longleftrightarrow>
     (\<exists>m1 m2. first_ready (ready svc (DesignJob i)) m1 \<and> first_ready (ready svc (RetrainJob i)) m2
        \<and> s' = after_iteration svc args i s m1 m2)"
  unfolding sl_iteration_def after_iteration_def iteration_events_def Let_def
  by (auto simp: bind_eq_Some_conv poll_from_start)

lemma trace_after_iteration:
  "trace (after_iteration svc args i s m1 m2) = trace s @ iteration_events (wait_time args) i m1 m2"
  by (simp add: after_iteration_def Let_def)

lemma lengths_after_iteration:
  "length (best_sl_pred_vals (after_iteration svc args i s m1 m2)) = Suc (length (best_sl_pred_vals s))"
  "length (best_sl_measured_vals (after_iteration svc args i s m1 m2)) = Suc (length (best_sl_measured_vals s))"
  by (simp_all add: after_iteration_def Let_def)

lemma first_ready_ready_at: "first_ready (ready svc j) m \<Longrightarrow> ready_at svc j = m"
  unfolding first_ready_def ready_at_def
  by (rule Least_equality) (auto simp: not_less [symmetric])

lemma sl_loop_Some_D:
  assumes "sl_loop svc args idx s = Some s'"
  shows "trace s' = trace s @ concat (map (\<lambda>i. iteration_events (wait_time args) i
             (ready_at svc (DesignJob i)) (ready_at svc (RetrainJob i))) idx)
         \<and> (\<forall>i\<in>set idx. first_ready (ready svc (DesignJob i)) (ready_at svc (DesignJob i))
               \<and> first_ready (ready svc (RetrainJob i)) (ready_at svc (RetrainJob i)))
         \<and> length (best_sl_pred_vals s') = length (best_sl_pred_vals s) + length idx
         \<and> length (best_sl_measured_vals s') = length (best_sl_measured_vals s) + length idx"
  using assms
proof (induction idx arbitrary: s)
  case Nil
  then show ?case by simp
next
  case (Cons i idx)
  from Cons.prems obtain s1 where it: "sl_iteration svc args i s = Some s1"
    and rest: "sl_loop svc args idx s1 = Some s'"
    by (auto simp: bind_eq_Some_conv)
  from it obtain m1 m2 where m1: "first_ready (ready svc (DesignJob i)) m1"
    and m2: "first_ready (ready svc (RetrainJob i)) m2"
    and s1: "s1 = after_iteration svc args i s m1 m2"
    unfolding sl_iteration_Some_iff by blast
  have r1: "ready_at svc (DesignJob i) = m1" and r2: "ready_at svc (RetrainJob i) = m2"
    using m1 m2 by (simp_all add: first_ready_ready_at)
  from Cons.IH [OF rest] show ?case
    using m1 m2 by (simp add: s1 r1 r2 trace_after_iteration lengths_after_iteration)
qed

lemma sl_loop_total:
  assumes "\<forall>i\<in>set idx. (\<exists>k. ready svc (DesignJob i) k) \<and> (\<exists>k. ready svc (RetrainJob i) k)"
  shows "\<exists>s'. sl_loop svc args idx s = Some s'"
  using assms
proof (induction idx arbitrary: s)
  case Nil
  show ?case by simp
next
  case (Cons i idx)
  then obtain m1 m2 where "first_ready (ready svc (DesignJob i)) m1"
    "first_ready (ready svc (RetrainJob i)) m2"
    using first_ready_exists [of "ready svc (DesignJob i)"]
      first_ready_exists [of "ready svc (RetrainJob i)"] by auto
  then have "sl_iteration svc args i s = Some (after_iteration svc args i s m1 m2)"
    unfolding sl_iteration_Some_iff by blast
  moreover obtain s' where "sl_loop svc args idx (after_iteration svc args i s m1 m2) = Some s'"
    using Cons.IH Cons.prems by auto
  ultimately show ?case by simp
qed

lemma filter_submit_poll_block: "filter is_submit (poll_block j w m) = []"
  by (induction m) (simp_all add: poll_block_def is_submit_def)

lemma filter_submit_iteration: "filter is_submit (iteration_events w i m1 m2) = [SubmitDesign i]"
  by (simp add: iteration_events_def filter_submit_poll_block) (simp add: is_submit_def)

lemma filter_submit_iterations:
  "filter is_submit (concat (map (\<lambda>i. iteration_events w i (f i) (g i)) idx)) = map SubmitDesign idx"
  by (induction idx) (simp_all add: filter_submit_iteration)

text \<open>
  Claim C1, amended. When every design job and every retrain job of the \<open>n\<close> iterations
  is eventually reported ready, a call with \<open>num_sl_iterations = n\<close> returns: the loop
  runs exactly \<open>n\<close> times (design jobs \<open>0\<close> to \<open>n - 1\<close> are submitted, in order) and the
  result is the accumulated best predicted and best measured values, \<open>n\<close> of each.
\<close>

theorem run_sequential_learning_terminates:
  assumes "\<forall>i<num_sl_iterations args.
             (\<exists>k. ready svc (DesignJob i) k) \<and> (\<exists>k. ready svc (RetrainJob i) k)"
  shows "\<exists>s. sl_run svc args initial = Some s
           \<and> run_sequential_learning svc args initial
               = Some (best_sl_pred_vals s, best_sl_measured_vals s)
           \<and> filter is_submit (trace s) = map SubmitDesign [0..<num_sl_iterations args]
           \<and> length (best_sl_pred_vals s) = num_sl_iterations args
           \<and> length (best_sl_measured_vals s) = num_sl_iterations args"
proof -
  let ?init = "\<lparr>dataset = initial, best_sl_pred_vals = [], best_sl_measured_vals = [], trace = []\<rparr>"
  let ?idx = "[0..<num_sl_iterations args]"
  have "\<forall>i\<in>set ?idx. (\<exists>k. ready svc (DesignJob i) k) \<and> (\<exists>k. ready svc (RetrainJob i) k)"
    using assms by simp
  from sl_loop_total [OF this] obtain s where s: "sl_loop svc args ?idx ?init = Some s"
    by blast
  have run: "sl_run svc args initial = Some s"
    using s by (simp add: sl_run_def)
  from sl_loop_Some_D [OF s]
  have "filter is_submit (trace s) = map SubmitDesign ?idx"
    and "length (best_sl_pred_vals s) = num_sl_iterations args"
    and "length (best_sl_measured_vals s) = num_sl_iterations args"
    by (simp_all add: filter_submit_iterations)
  with run show ?thesis
    by (simp add: run_sequential_learning_def)
qed

lemma sl_run_slow_1:
  "sl_run slow_service (demo_args 1) [] =
     Some \<lparr>dataset = [([1, 2], 5)], best_sl_pred_vals = [4], best_sl_measured_vals = [5],
       trace = [SubmitDesign 0, Poll (DesignJob 0) False, Sleep 10, Poll (DesignJob 0) True,
                ExtractCandidates 0, Evaluate 0, AppendToDataset 0, Retrain 0,
                Poll (RetrainJob 0) False, Sleep 10, Poll (RetrainJob 0) True]\<rparr>"
  by (simp add: sl_run_def sl_iteration_def poll_ready_now poll_not_ready slow_service_def
      demo_args_def toy_func_def np_sum_def np_square_def)

theorem run_sequential_learning_terminates_witness:
  "run_sequential_learning slow_service (demo_args 1) [] = Some ([4], [5])
   \<and> (\<exists>s. sl_run slow_service (demo_args 1) [] = Some s
         \<and> filter is_submit (trace s) = [SubmitDesign 0]
         \<and> length (best_sl_pred_vals s) = 1 \<and> length (best_sl_measured_vals s) = 1)"
proof -
  have h: "\<forall>i<num_sl_iterations (demo_args 1).
      (\<exists>k. ready slow_service (DesignJob i) k) \<and> (\<exists>k. ready slow_service (RetrainJob i) k)"
    by (auto simp: slow_service_def)
  have n: "num_sl_iterations (demo_args 1) = 1"
    by (simp add: demo_args_def)
  from run_sequential_learning_terminates [OF h, of "[]"] sl_run_slow_1
  show ?thesis
    unfolding n by simp
qed

text \<open>
  Claim C1 as stated fails: against a service whose jobs never become ready a call with
  one iteration polls forever and returns nothing.
\<close>

theorem run_sequential_learning_terminates_counterexample:
  "run_sequential_learning stuck_service (demo_args 1) [] = None"
proof -
  have "poll_until_ready (ready stuck_service (DesignJob 0)) (DesignJob 0) 10 0 = None"
    by (rule poll_never_ready) (simp add: stuck_service_def)
  then show ?thesis
    by (simp add: run_sequential_learning_def sl_run_def sl_iteration_def demo_args_def)
qed



text \<open>
  Claim C6. Polling returns exactly when some poll is answered ready, after one sleep of
  the wait time for each poll answered not ready before it, and it never returns when the
  status never becomes ready; an iteration that completes has gone through the ready poll
  of its design job before extracting candidates and through the ready poll of its retrain
  job before ending, and an iteration whose design or retrain job never becomes ready does
  not proceed.
\<close>

theorem polling_sleep_and_retry:
  "(poll_until_ready status j w 0 = Some t \<longleftrightarrow> (\<exists>m. first_ready status m \<and> t = poll_block j w m)) \<and>
   ((\<forall>k. \<not> status k) \<longrightarrow> poll_until_ready status j w 0 = None) \<and>
   (sl_iteration svc args i s = Some s' \<longrightarrow>
      (\<exists>m1 m2. first_ready (ready svc (DesignJob i)) m1 \<and> first_ready (ready svc (RetrainJob i)) m2
         \<and> trace s' = trace s @ [SubmitDesign i] @ poll_block (DesignJob i) (wait_time args) m1
              @ [ExtractCandidates i, Evaluate i, AppendToDataset i, Retrain i]
              @ poll_block (RetrainJob i) (wait_time args) m2)) \<and>
   ((\<forall>k. \<not> ready svc (DesignJob i) k) \<or> (\<forall>k. \<not> ready svc (RetrainJob i) k)
      \<longrightarrow> sl_iteration svc args i s = None)"
proof (intro conjI impI)
  show "poll_until_ready status j w 0 = Some t \<longleftrightarrow> (\<exists>m. first_ready status m \<and> t = poll_block j w m)"
    by (rule poll_from_start)
  show "poll_until_ready status j w 0 = None" if "\<forall>k. \<not> status k"
    using that by (rule poll_never_ready)
  show "\<exists>m1 m2. first_ready (ready svc (DesignJob i)) m1 \<and> first_ready (ready svc (RetrainJob i)) m2
         \<and> trace s' = trace s @ [SubmitDesign i] @ poll_block (DesignJob i) (wait_time args) m1
              @ [ExtractCandidates i, Evaluate i, AppendToDataset i, Retrain i]
              @ poll_block (RetrainJob i) (wait_time args) m2"
    if "sl_iteration svc args i s = Some s'"
  proof -
    from that obtain m1 m2 where m: "first_ready (ready svc (DesignJob i)) m1"
      "first_ready (ready svc (RetrainJob i)) m2" "s' = after_iteration svc args i s m1 m2"
      unfolding sl_iteration_Some_iff by blast
    have "trace s' = trace s @ [SubmitDesign i] @ poll_block (DesignJob i) (wait_time args) m1
              @ [ExtractCandidates i, Evaluate i, AppendToDataset i, Retrain i]
              @ poll_block (RetrainJob i) (wait_time args) m2"
      by (simp add: m(3) trace_after_iteration iteration_events_def)
    with m(1,2) show ?thesis by blast
  qed
  show "sl_iteration svc args i s = None"
    if "(\<forall>k. \<not> ready svc (DesignJob i) k) \<or> (\<forall>k. \<not> ready svc (RetrainJob i) k)"
  proof (rule ccontr)
    assume "sl_iteration svc args i s \<noteq> None"
    then obtain s' where "sl_iteration svc args i s = Some s'" by auto
    then show False
      using that unfolding sl_iteration_Some_iff first_ready_def by blast
  qed
qed

theorem polling_sleep_and_retry_witness:
  "poll_until_ready (\<lambda>k. 2 \<le> k) (DesignJob 0) 10 0
     = Some [Poll (DesignJob 0) False, Sleep 10, Poll (DesignJob 0) False, Sleep 10, Poll (DesignJob 0) True]
   \<and> poll_until_ready (\<lambda>k. False) (DesignJob 0) 10 0 = None
   \<and> sl_iteration stuck_service (demo_args 1) 0
        \<lparr>dataset = [], best_sl_pred_vals = [], best_sl_measured_vals = [], trace = []\<rparr> = None"
proof -
  have fr: "first_ready (\<lambda>k. 2 \<le> k) 2"
    by (auto simp: first_ready_def)
  have pb: "poll_block (DesignJob 0) 10 2
      = [Poll (DesignJob 0) False, Sleep 10, Poll (DesignJob 0) False, Sleep 10, Poll (DesignJob 0) True]"
    by (simp add: poll_block_def numeral_2_eq_2)
  have a: "poll_until_ready (\<lambda>k. 2 \<le> k) (DesignJob 0) 10 0 = Some (poll_block (DesignJob 0) 10 2)"
    using polling_sleep_and_retry [of "\<lambda>k. 2 \<le> k" "DesignJob 0" 10 "poll_block (DesignJob 0) 10 2"] fr
    by blast
  have b: "poll_until_ready (\<lambda>k. False) (DesignJob 0) 10 0 = None"
    using polling_sleep_and_retry [of "\<lambda>k. False" "DesignJob 0" 10] by simp
  have c: "sl_iteration stuck_service (demo_args 1) 0
        \<lparr>dataset = [], best_sl_pred_vals = [], best_sl_measured_vals = [], trace = []\<rparr> = None"
    using polling_sleep_and_retry [of _ _ _ _ stuck_service _ 0]
    by (simp add: stuck_service_def)
  show ?thesis using a b c by (simp add: pb)
qed

section \<open>Properties of the notebooks\<close>










end
